theory Spec2Isabelle
  imports Main "HOL-Library.Sublist"
begin

section \<open>Strings of the server\<close>

text \<open>
  A JavaScript string is a sequence of UTF-16 code units. The model writes a string as a
  \<open>char list\<close> and reads each \<open>char\<close> as the code unit of the same number, so it covers
  the strings whose code units are below 256 (U+0000 to U+00FF); on these the functions
  below are the ones of ECMAScript.
\<close>

text \<open>
  \<open>StringIndexOf(string, searchValue, 0)\<close>: the smallest position at which
  \<open>searchValue\<close> starts in \<open>string\<close>; \<open>None\<close> is the -1 of ECMAScript. The empty search
  value is found at position 0.
\<close>

fun indexOf :: "string \<Rightarrow> string \<Rightarrow> nat option" where
  "indexOf [] pat = (if pat = [] then Some 0 else None)"
| "indexOf (c # cs) pat =
     (if prefix pat (c # cs) then Some 0 else map_option Suc (indexOf cs pat))"

text \<open>\<open>String.prototype.includes\<close>: the search string is found somewhere.\<close>

definition str_includes :: "string \<Rightarrow> string \<Rightarrow> bool" where
  "str_includes s pat = (indexOf s pat \<noteq> None)"

text \<open>
  \<open>String.prototype.replace\<close> with a string as pattern: only the first occurrence is
  replaced, and a string without the pattern is returned as it is. The server always
  replaces by the empty string, in which no \<open>$\<close> pattern is expanded.
\<close>

definition replace :: "string \<Rightarrow> string \<Rightarrow> string \<Rightarrow> string" where
  "replace s pat rep =
     (case indexOf s pat of
        None \<Rightarrow> s
      | Some pos \<Rightarrow> take pos s @ rep @ drop (pos + length pat) s)"

text \<open>
  White space and line terminators of ECMAScript below U+0100: TAB, LF, VT, FF, CR, SP
  and NBSP. \<open>String.prototype.trim\<close> removes them from both ends.
\<close>

definition isWhiteSpace :: "char \<Rightarrow> bool" where
  "isWhiteSpace c = ((of_char c :: nat) \<in> {9, 10, 11, 12, 13, 32, 160})"

definition trim :: "string \<Rightarrow> string" where
  "trim s = rev (dropWhile isWhiteSpace (rev (dropWhile isWhiteSpace s)))"

text \<open>
  \<open>String.prototype.toLowerCase\<close> below U+0100: the letters A to Z and the letters
  U+00C0 to U+00DE without the multiplication sign U+00D7 move up by 32, every other
  code unit stays.
\<close>

definition toLowerCaseChar :: "char \<Rightarrow> char" where
  "toLowerCaseChar c =
     (let n = (of_char c :: nat)
      in if (65 \<le> n \<and> n \<le> 90) \<or> (192 \<le> n \<and> n \<le> 222 \<and> n \<noteq> 215)
         then char_of (n + 32) else c)"

definition toLowerCase :: "string \<Rightarrow> string" where
  "toLowerCase s = map toLowerCaseChar s"

section \<open>Calendar events and the event matcher\<close>

text \<open>
  An event as the calendar backend lists it. Every event carries a summary, as in the
  data model of the specification. The two start fields hold the time value
  (milliseconds since the epoch) that \<open>new Date\<close> gives for the backend's string;
  \<open>None\<close> is a field the backend left out.
\<close>

record event_start =
  start_dateTime :: "int option"
  start_date :: "int option"

record calendar_event =
  ev_id :: string
  ev_summary :: string
  ev_start :: event_start

text \<open>
  \<open>findMatchingEvent\<close>: \<open>Array.prototype.find\<close> with the two-way containment test;
  \<open>None\<close> is the \<open>undefined\<close> of \<open>find\<close>.
\<close>

definition findMatchingEvent :: "calendar_event list \<Rightarrow> string \<Rightarrow> calendar_event option" where
  "findMatchingEvent events searchTitle =
     List.find (\<lambda>event. str_includes (toLowerCase (ev_summary event)) searchTitle
                     \<or> str_includes searchTitle (toLowerCase (ev_summary event))) events"

text \<open>The events of scenario C of the specification.\<close>

definition teamSync :: calendar_event where
  "teamSync = \<lparr>ev_id = ''e1'', ev_summary = ''Team Sync'',
                ev_start = \<lparr>start_dateTime = Some 1705312800000, start_date = None\<rparr>\<rparr>"

definition doctor :: calendar_event where
  "doctor = \<lparr>ev_id = ''e2'', ev_summary = ''Doctor'',
              ev_start = \<lparr>start_dateTime = Some 1705323600000, start_date = None\<rparr>\<rparr>"

section \<open>Time values and dates\<close>

text \<open>
  The time value of a JavaScript \<open>Date\<close> is a whole number of milliseconds since the
  epoch, at most \<open>8.64e15\<close> in absolute value, or NaN for the Invalid Date. A \<open>Date\<close>
  is modelled as an \<open>int option\<close>, \<open>None\<close> being the Invalid Date. The functions are
  those of the ECMAScript specification of \<open>Date\<close>.
\<close>

type_synonym js_date = "int option"

definition msPerSecond :: int where "msPerSecond = 1000"
definition msPerMinute :: int where "msPerMinute = 60000"
definition msPerHour :: int where "msPerHour = 3600000"
definition msPerDay :: int where "msPerDay = 86400000"
definition maxTimeValue :: int where "maxTimeValue = 8640000000000000"

definition TimeClip :: "int \<Rightarrow> js_date" where
  "TimeClip t = (if \<bar>t\<bar> \<le> maxTimeValue then Some t else None)"

text \<open>\<open>new Date(value)\<close> for a time value or a \<open>Date\<close>.\<close>

definition newDate :: "js_date \<Rightarrow> js_date" where
  "newDate tv = (case tv of None \<Rightarrow> None | Some t \<Rightarrow> TimeClip t)"

definition Day :: "int \<Rightarrow> int" where "Day t = t div msPerDay"

definition TimeWithinDay :: "int \<Rightarrow> int" where "TimeWithinDay t = t mod msPerDay"

definition MakeTime :: "int \<Rightarrow> int \<Rightarrow> int \<Rightarrow> int \<Rightarrow> int" where
  "MakeTime hour minute sec ms = hour * msPerHour + minute * msPerMinute + sec * msPerSecond + ms"

definition MakeDate :: "int \<Rightarrow> int \<Rightarrow> int" where
  "MakeDate day time = day * msPerDay + time"

text \<open>
  The time zone of the server process, as ECMAScript's \<open>LocalTZA(t, isUTC)\<close>: the offset
  of local time from UTC in milliseconds, at the UTC time value \<open>t\<close> when \<open>isUTC\<close> holds
  and at the local time value \<open>t\<close> otherwise. It is the environment's, not the source's.
\<close>

type_synonym zone = "int \<Rightarrow> bool \<Rightarrow> int"

definition LocalTime :: "zone \<Rightarrow> int \<Rightarrow> int" where
  "LocalTime tza t = t + tza t True"

definition UTC :: "zone \<Rightarrow> int \<Rightarrow> int" where
  "UTC tza t = t - tza t False"

text \<open>A zone without daylight saving: the same offset at every instant.\<close>

definition fixedZone :: "int \<Rightarrow> zone" where
  "fixedZone offset t isUTC = offset"

text \<open>
  The display time zone \<open>Asia/Dubai\<close>, as the time zone database has it: local mean
  time, 3:41:12 ahead of UTC, until 1 January 1920, 0:00 local mean time (31 December
  1919, 20:18:48 UTC), and four hours ahead of UTC since, without daylight saving. A
  local time that the change skips is read with the offset before the change, as
  ECMAScript asks. \<open>dubaiDay\<close> numbers the calendar days of that zone.
\<close>

definition dubaiMeanTime :: int where
  "dubaiMeanTime = 3 * msPerHour + 41 * msPerMinute + 12 * msPerSecond"

definition dubaiOffset :: int where
  "dubaiOffset = 4 * msPerHour"

definition dubaiStandardSince :: int where
  "dubaiStandardSince = - 1577936472000"

definition dubaiZone :: zone where
  "dubaiZone t isUTC =
     (if isUTC
      then (if t < dubaiStandardSince then dubaiMeanTime else dubaiOffset)
      else (if t < dubaiStandardSince + dubaiOffset then dubaiMeanTime else dubaiOffset))"

definition dubaiDay :: "int \<Rightarrow> int" where
  "dubaiDay t = Day (LocalTime dubaiZone t)"

text \<open>
  A zone with daylight saving, as Europe/Berlin around 31 March 2024: one hour ahead of
  UTC until 01:00 UTC of that day, two hours ahead from then on.
\<close>

definition berlinSpring2024 :: zone where
  "berlinSpring2024 t isUTC =
     (if isUTC
      then (if t < 1711846800000 then msPerHour else 2 * msPerHour)
      else (if t < 1711846800000 + 2 * msPerHour then msPerHour else 2 * msPerHour))"

text \<open>
  \<open>Date.prototype.setHours(hour, min, sec, ms)\<close>: the new time value, which the
  \<open>Date\<close> also keeps.
\<close>

definition setHours :: "zone \<Rightarrow> js_date \<Rightarrow> int \<Rightarrow> int \<Rightarrow> int \<Rightarrow> int \<Rightarrow> js_date" where
  "setHours tza tv hour minute sec ms =
     (case tv of
        None \<Rightarrow> None
      | Some t \<Rightarrow> TimeClip (UTC tza (MakeDate (Day (LocalTime tza t)) (MakeTime hour minute sec ms))))"

datatype error = RangeError | BackendError string

text \<open>
  \<open>Date.prototype.toISOString\<close> raises a RangeError on the Invalid Date. The string it
  returns denotes the time value exactly; the model keeps the time value in its place.
\<close>

definition toISOString :: "js_date \<Rightarrow> error + int" where
  "toISOString tv = (case tv of None \<Rightarrow> Inl RangeError | Some t \<Rightarrow> Inr t)"

record date_range =
  timeMin :: int
  timeMax :: int

text \<open>
  \<open>getDateRange\<close>: \<open>targetDate\<close> is a copy of the argument; the first \<open>setHours\<close> moves
  it to the start of its local day, and the second one works on the moved date.
\<close>

definition getDateRange :: "zone \<Rightarrow> js_date \<Rightarrow> error + date_range" where
  "getDateRange tza date =
     (let targetDate = newDate date;
          dayStart = setHours tza targetDate 0 0 0 0
      in case toISOString (newDate dayStart) of
           Inl e \<Rightarrow> Inl e
         | Inr tmin \<Rightarrow>
             (let dayEnd = setHours tza dayStart 23 59 59 999
              in case toISOString (newDate dayEnd) of
                   Inl e \<Rightarrow> Inl e
                 | Inr tmax \<Rightarrow> Inr \<lparr>timeMin = tmin, timeMax = tmax\<rparr>))"

section \<open>Parsed dates, titles and drafts\<close>

text \<open>
  One result of \<open>chrono.parse\<close>: the matched text, the time value of \<open>start.date()\<close>, and
  the time value of \<open>end.date()\<close> when the result has an end (\<open>None\<close> is the \<open>null\<close> end).
\<close>

record parsed_result =
  pr_text :: string
  pr_start :: int
  pr_end :: "int option"

text \<open>\<open>extractEventTitle\<close>: \<open>forEach\<close> over the results, updating \<open>eventTitle\<close>.\<close>

definition extractEventTitle :: "string \<Rightarrow> parsed_result list \<Rightarrow> string" where
  "extractEventTitle eventText parsedDate =
     foldl (\<lambda>eventTitle date. trim (replace eventTitle (pr_text date) [])) eventText parsedDate"

record date_time_zone =
  dateTime :: int
  timeZone :: string

record event_resource =
  res_summary :: string
  res_start :: date_time_zone
  res_end :: date_time_zone

text \<open>
  \<open>createEventObject\<close>: the fields are evaluated in the order of the object literal, and
  each \<open>toISOString\<close> may raise.
\<close>

definition createEventObject :: "string \<Rightarrow> parsed_result \<Rightarrow> error + event_resource" where
  "createEventObject title parsedDate =
     (case toISOString (TimeClip (pr_start parsedDate)) of
        Inl e \<Rightarrow> Inl e
      | Inr startTime \<Rightarrow>
          (case (case pr_end parsedDate of
                   Some e \<Rightarrow> toISOString (TimeClip e)
                 | None \<Rightarrow> toISOString (newDate (Some (pr_start parsedDate + 60 * 60 * 1000)))) of
             Inl e \<Rightarrow> Inl e
           | Inr endTime \<Rightarrow>
               Inr \<lparr>res_summary = title,
                    res_start = \<lparr>dateTime = startTime, timeZone = ''Asia/Dubai''\<rparr>,
                    res_end = \<lparr>dateTime = endTime, timeZone = ''Asia/Dubai''\<rparr>\<rparr>))"

subsection \<open>The regular expression of the search title\<close>

text \<open>
  \<open>/\b(cancel|delete|remove)\b/gi\<close>. Without the \<open>u\<close> flag a word character is one of
  \<open>A-Z\<close>, \<open>a-z\<close>, \<open>0-9\<close> and \<open>_\<close>, and the position before the first or after the last
  character counts as a non-word character. Under the \<open>i\<close> flag two characters match
  when their canonical forms are equal; the pattern holds ASCII letters only, and among
  the code units no other than an ASCII letter has an ASCII letter as canonical form, so
  the canonical form is taken on ASCII letters only.
\<close>

definition isWordChar :: "char \<Rightarrow> bool" where
  "isWordChar c =
     (let n = (of_char c :: nat)
      in (48 \<le> n \<and> n \<le> 57) \<or> (65 \<le> n \<and> n \<le> 90) \<or> n = 95 \<or> (97 \<le> n \<and> n \<le> 122))"

definition isWordCharAt :: "char option \<Rightarrow> bool" where
  "isWordCharAt e = (case e of None \<Rightarrow> False | Some c \<Rightarrow> isWordChar c)"

definition wordBoundary :: "char option \<Rightarrow> char option \<Rightarrow> bool" where
  "wordBoundary a b = (isWordCharAt a \<noteq> isWordCharAt b)"

definition canonicalize :: "char \<Rightarrow> char" where
  "canonicalize c =
     (let n = (of_char c :: nat)
      in if 97 \<le> n \<and> n \<le> 122 then char_of (n - 32) else c)"

fun matchLiteral :: "string \<Rightarrow> string \<Rightarrow> bool" where
  "matchLiteral [] s = True"
| "matchLiteral (p # ps) [] = False"
| "matchLiteral (p # ps) (c # cs) = (canonicalize p = canonicalize c \<and> matchLiteral ps cs)"

definition charAt :: "string \<Rightarrow> nat \<Rightarrow> char option" where
  "charAt s i = (if i < length s then Some (s ! i) else None)"

definition verbs :: "string list" where
  "verbs = [''cancel'', ''delete'', ''remove'']"

text \<open>
  One attempt to match the expression where \<open>s\<close> is the rest of the input and \<open>prev\<close> the
  character before it: the length of the match. The alternatives are tried in order, and
  one whose closing \<open>\b\<close> fails gives way to the next.
\<close>

definition matchVerbAt :: "char option \<Rightarrow> string \<Rightarrow> nat option" where
  "matchVerbAt prev s =
     (if wordBoundary prev (charAt s 0)
      then map_option length
             (List.find (\<lambda>w. matchLiteral w s
                            \<and> wordBoundary (charAt s (length w - 1)) (charAt s (length w))) verbs)
      else None)"

text \<open>
  The replacement of every match by the empty string (flag \<open>g\<close>): the input is scanned
  from the left; a match is left out and the scan goes on behind it, and a character at
  which nothing matches is copied.
\<close>

function replaceVerbs :: "char option \<Rightarrow> string \<Rightarrow> string" where
  "replaceVerbs prev s =
     (case s of
        [] \<Rightarrow> []
      | c # cs \<Rightarrow>
          (case matchVerbAt prev s of
             Some n \<Rightarrow> replaceVerbs (charAt s (n - 1)) (drop n s)
           | None \<Rightarrow> c # replaceVerbs (Some c) cs))"
  by pat_completeness auto
termination
  by (relation "measure (\<lambda>(prev, s). length s)")
     (auto simp: matchVerbAt_def verbs_def split: if_splits)

declare replaceVerbs.simps [simp del]

text \<open>\<open>extractSearchTitle\<close>.\<close>

definition extractSearchTitle :: "string \<Rightarrow> parsed_result list \<Rightarrow> string" where
  "extractSearchTitle eventText parsedDate =
     (let searchTitle = toLowerCase eventText;
          searchTitle =
            (if length parsedDate > 0
             then foldl (\<lambda>searchTitle date. trim (replace searchTitle (pr_text date) []))
                    searchTitle parsedDate
             else searchTitle)
      in trim (replaceVerbs None searchTitle))"

section \<open>The routes\<close>

text \<open>
  What the server takes from its environment: the time zone of the process, the clock
  (\<open>new Date()\<close>), the temporal parser \<open>chrono.parse\<close>, and the two formatting functions
  of the runtime, \<open>toLocaleTimeString\<close> and \<open>toLocaleDateString\<close> with the options of
  \<open>formatTime\<close> and \<open>formatDate\<close>, on the time value of a valid \<open>Date\<close>.
\<close>

record env =
  LocalTZA :: zone
  now :: int
  chrono_parse :: "string \<Rightarrow> parsed_result list"
  toLocaleTimeString :: "int \<Rightarrow> string"
  toLocaleDateString :: "int \<Rightarrow> string"

text \<open>Both formatting functions build a \<open>Date\<close> first and render the Invalid Date as such.\<close>

definition formatTime :: "env \<Rightarrow> js_date \<Rightarrow> string" where
  "formatTime E dateTimeStr =
     (case newDate dateTimeStr of None \<Rightarrow> ''Invalid Date'' | Some t \<Rightarrow> toLocaleTimeString E t)"

definition formatDate :: "env \<Rightarrow> js_date \<Rightarrow> string" where
  "formatDate E dateTimeStr =
     (case newDate dateTimeStr of None \<Rightarrow> ''Invalid Date'' | Some t \<Rightarrow> toLocaleDateString E t)"

text \<open>The decimal digits of a number, as a template literal renders \<open>events.length\<close>.\<close>

fun showNat :: "nat \<Rightarrow> string" where
  "showNat n = (if n < 10 then [char_of (48 + n)] else showNat (n div 10) @ [char_of (48 + n mod 10)])"

text \<open>\<open>event.start.dateTime || event.start.date\<close>.\<close>

definition startOf :: "calendar_event \<Rightarrow> js_date" where
  "startOf event =
     (case start_dateTime (ev_start event) of
        Some t \<Rightarrow> Some t
      | None \<Rightarrow> start_date (ev_start event))"

definition buildEventListResponse :: "env \<Rightarrow> calendar_event list \<Rightarrow> string \<Rightarrow> string" where
  "buildEventListResponse E events dateContext =
     (if length events = 0
      then ''You have no events scheduled for '' @ dateContext @ ''.''
      else foldl (\<lambda>response event.
                    response @ ev_summary event @ '' at '' @ formatTime E (startOf event) @ ''. '')
             (''For '' @ dateContext @ '', you have '' @ showNat (length events) @ '' event''
                @ (if length events > 1 then ''s'' else []) @ ''. '')
             events)"

text \<open>
  The calendar backend, over a calendar state of type \<open>'c\<close>. Listing reads the state; an
  insertion or a deletion returns the next state, and \<open>Some message\<close> when the call is
  rejected. The arguments are those the routes give beside the constant ones.
\<close>

record 'c backend =
  events_list :: "'c \<Rightarrow> int \<Rightarrow> int \<Rightarrow> string + calendar_event list"
  events_insert :: "'c \<Rightarrow> event_resource \<Rightarrow> string option \<times> 'c"
  events_delete :: "'c \<Rightarrow> string \<Rightarrow> string option \<times> 'c"

datatype backend_call =
  EventsList int int
| EventsInsert event_resource
| EventsDelete string

record request_body =
  eventText :: "string option"
  dateText :: "string option"

record json_body =
  error_field :: "string option"
  siriResponse :: string

text \<open>
  What one request leaves: the body of the response, the backend calls in the order made,
  and the calendar state after them.
\<close>

record 'c outcome =
  response :: json_body
  calls :: "backend_call list"
  calendar :: 'c

fun message :: "error \<Rightarrow> string" where
  "message RangeError = ''Invalid time value''"
| "message (BackendError m) = m"

definition handleApiError :: "error \<Rightarrow> string \<Rightarrow> json_body" where
  "handleApiError e customMessage = \<lparr>error_field = Some (message e), siriResponse = customMessage\<rparr>"

definition reply :: "string \<Rightarrow> json_body" where
  "reply text = \<lparr>error_field = None, siriResponse = text\<rparr>"

text \<open>\<open>POST /api/create\<close>. The test \<open>!eventText\<close> holds of a missing field and of the empty string.\<close>

definition createRoute :: "env \<Rightarrow> 'c backend \<Rightarrow> 'c \<Rightarrow> request_body \<Rightarrow> 'c outcome" where
  "createRoute E B c body =
     (case eventText body of
        None \<Rightarrow> \<lparr>response = reply ''Please provide event details.'', calls = [], calendar = c\<rparr>
      | Some text \<Rightarrow>
          if text = []
          then \<lparr>response = reply ''Please provide event details.'', calls = [], calendar = c\<rparr>
          else
            (case chrono_parse E text of
               [] \<Rightarrow> \<lparr>response = reply ''I couldn't understand the date and time for this event.'',
                       calls = [], calendar = c\<rparr>
             | first # rest \<Rightarrow>
                 (let eventTitle = extractEventTitle text (first # rest)
                  in case createEventObject eventTitle first of
                       Inl e \<Rightarrow>
                         \<lparr>response = handleApiError e ''Sorry, I couldn't create the event right now.'',
                          calls = [], calendar = c\<rparr>
                     | Inr event \<Rightarrow>
                         (case events_insert B c event of
                            (Some m, c') \<Rightarrow>
                              \<lparr>response = handleApiError (BackendError m)
                                            ''Sorry, I couldn't create the event right now.'',
                               calls = [EventsInsert event], calendar = c'\<rparr>
                          | (None, c') \<Rightarrow>
                              \<lparr>response = reply
                                 (''Added \"'' @ eventTitle @ ''\" to your calendar for ''
                                    @ formatDate E (Some (dateTime (res_start event))) @ '' at ''
                                    @ formatTime E (Some (dateTime (res_start event))) @ ''.''),
                               calls = [EventsInsert event], calendar = c'\<rparr>))))"

text \<open>\<open>POST /api/query\<close>.\<close>

definition queryRoute :: "env \<Rightarrow> 'c backend \<Rightarrow> 'c \<Rightarrow> request_body \<Rightarrow> 'c outcome" where
  "queryRoute E B c body =
     (case dateText body of
        None \<Rightarrow> \<lparr>response = reply ''Please specify which day you'd like to check.'',
                  calls = [], calendar = c\<rparr>
      | Some text \<Rightarrow>
          if text = []
          then \<lparr>response = reply ''Please specify which day you'd like to check.'',
                calls = [], calendar = c\<rparr>
          else
            (case chrono_parse E text of
               [] \<Rightarrow> \<lparr>response = reply ''I couldn't understand which date you meant.'',
                       calls = [], calendar = c\<rparr>
             | first # rest \<Rightarrow>
                 (let targetDate = TimeClip (pr_start first)
                  in case getDateRange (LocalTZA E) targetDate of
                       Inl e \<Rightarrow>
                         \<lparr>response = handleApiError e ''Sorry, I couldn't check your calendar right now.'',
                          calls = [], calendar = c\<rparr>
                     | Inr dayRange \<Rightarrow>
                         (case events_list B c (timeMin dayRange) (timeMax dayRange) of
                            Inl m \<Rightarrow>
                              \<lparr>response = handleApiError (BackendError m)
                                            ''Sorry, I couldn't check your calendar right now.'',
                               calls = [EventsList (timeMin dayRange) (timeMax dayRange)], calendar = c\<rparr>
                          | Inr events \<Rightarrow>
                              \<lparr>response = reply (buildEventListResponse E events (formatDate E targetDate)),
                               calls = [EventsList (timeMin dayRange) (timeMax dayRange)],
                               calendar = c\<rparr>))))"

text \<open>
  \<open>POST /api/delete\<close>. Without a parsed date the target date is the current instant.
\<close>

definition deleteRoute :: "env \<Rightarrow> 'c backend \<Rightarrow> 'c \<Rightarrow> request_body \<Rightarrow> 'c outcome" where
  "deleteRoute E B c body =
     (case eventText body of
        None \<Rightarrow> \<lparr>response = reply ''Please specify which event you'd like to cancel.'',
                  calls = [], calendar = c\<rparr>
      | Some text \<Rightarrow>
          if text = []
          then \<lparr>response = reply ''Please specify which event you'd like to cancel.'',
                calls = [], calendar = c\<rparr>
          else
            (let parsedDate = chrono_parse E text;
                 targetDate = (case parsedDate of
                                 [] \<Rightarrow> TimeClip (now E)
                               | first # rest \<Rightarrow> TimeClip (pr_start first))
             in case getDateRange (LocalTZA E) targetDate of
                  Inl e \<Rightarrow>
                    \<lparr>response = handleApiError e ''Sorry, I couldn't cancel the event right now.'',
                     calls = [], calendar = c\<rparr>
                | Inr dayRange \<Rightarrow>
                    (let searchTitle = extractSearchTitle text parsedDate
                     in case events_list B c (timeMin dayRange) (timeMax dayRange) of
                          Inl m \<Rightarrow>
                            \<lparr>response = handleApiError (BackendError m)
                                          ''Sorry, I couldn't cancel the event right now.'',
                             calls = [EventsList (timeMin dayRange) (timeMax dayRange)], calendar = c\<rparr>
                        | Inr events \<Rightarrow>
                            (case findMatchingEvent events searchTitle of
                               None \<Rightarrow>
                                 \<lparr>response = reply
                                    (''I couldn't find an event matching \"'' @ searchTitle
                                       @ ''\" for '' @ formatDate E targetDate @ ''.''),
                                  calls = [EventsList (timeMin dayRange) (timeMax dayRange)],
                                  calendar = c\<rparr>
                             | Some matchingEvent \<Rightarrow>
                                 (case events_delete B c (ev_id matchingEvent) of
                                    (Some m, c') \<Rightarrow>
                                      \<lparr>response = handleApiError (BackendError m)
                                                    ''Sorry, I couldn't cancel the event right now.'',
                                       calls = [EventsList (timeMin dayRange) (timeMax dayRange),
                                                EventsDelete (ev_id matchingEvent)],
                                       calendar = c'\<rparr>
                                  | (None, c') \<Rightarrow>
                                      \<lparr>response = reply
                                         (''I've cancelled \"'' @ ev_summary matchingEvent @ ''\" at ''
                                            @ formatTime E (startOf matchingEvent) @ ''.''),
                                       calls = [EventsList (timeMin dayRange) (timeMax dayRange),
                                                EventsDelete (ev_id matchingEvent)],
                                       calendar = c'\<rparr>)))))"

section \<open>The properties of the specification, as definitions\<close>

text \<open>
  The containment test of the event matcher in the words of the specification: the
  lower-cased title contains the search title as a substring, or the search title
  contains the lower-cased title. \<open>sublist xs ys\<close> is the substring relation of the
  library: \<open>ys = ps @ xs @ ss\<close> for some \<open>ps\<close> and \<open>ss\<close>.
\<close>

definition containsEitherWay :: "calendar_event \<Rightarrow> string \<Rightarrow> bool" where
  "containsEitherWay e searchTitle =
     (sublist searchTitle (toLowerCase (ev_summary e))
      \<or> sublist (toLowerCase (ev_summary e)) searchTitle)"

text \<open>
  The title extraction in the words of the specification: for each matched text in
  order, one removal of its first occurrence from the title so far, then a trim.
\<close>

fun removeEach :: "string \<Rightarrow> string list \<Rightarrow> string" where
  "removeEach title [] = title"
| "removeEach title (matched # others) = removeEach (trim (replace title matched [])) others"

text \<open>
  Three predicates on the input of the regular expression. \<open>verbAhead s\<close>: \<open>s\<close> starts
  with one of the three verbs, in any case, and no word character follows the verb.
  \<open>wordAhead k s\<close>: \<open>s\<close> starts with \<open>k\<close> word characters, and no word character follows
  them. \<open>verbFree prev s\<close>: the expression matches at no position of \<open>s\<close>, \<open>prev\<close> being
  the character before \<open>s\<close>.
\<close>

definition verbAhead :: "string \<Rightarrow> bool" where
  "verbAhead s = ((\<exists>w\<in>set verbs. matchLiteral w s) \<and> \<not> isWordCharAt (charAt s 6))"

definition wordAhead :: "nat \<Rightarrow> string \<Rightarrow> bool" where
  "wordAhead k s = (k \<le> length s \<and> (\<forall>i<k. isWordChar (s ! i)) \<and> \<not> isWordCharAt (charAt s k))"

fun verbFree :: "char option \<Rightarrow> string \<Rightarrow> bool" where
  "verbFree prev [] = True"
| "verbFree prev (c # cs) = (matchVerbAt prev (c # cs) = None \<and> verbFree (Some c) cs)"

text \<open>The identifiers of the deletions among the backend calls of a request.\<close>

fun deletions :: "backend_call list \<Rightarrow> string list" where
  "deletions [] = []"
| "deletions (EventsDelete eventId # rest) = eventId # deletions rest"
| "deletions (other # rest) = deletions rest"

section \<open>A calendar and an environment to run the routes on\<close>

text \<open>
  A calendar kept as the list of its events, none of whose calls is ever rejected:
  listing gives the events that start in the range, in the order kept.
\<close>

definition startsWithin :: "int \<Rightarrow> int \<Rightarrow> calendar_event \<Rightarrow> bool" where
  "startsWithin tmin tmax e =
     (case startOf e of None \<Rightarrow> False | Some t \<Rightarrow> tmin \<le> t \<and> t \<le> tmax)"

definition newEvent :: "event_resource \<Rightarrow> calendar_event" where
  "newEvent r = \<lparr>ev_id = res_summary r, ev_summary = res_summary r,
                 ev_start = \<lparr>start_dateTime = Some (dateTime (res_start r)), start_date = None\<rparr>\<rparr>"

definition listCalendar :: "calendar_event list backend" where
  "listCalendar =
     \<lparr>events_list = (\<lambda>c tmin tmax. Inr (filter (startsWithin tmin tmax) c)),
      events_insert = (\<lambda>c r. (None, c @ [newEvent r])),
      events_delete = (\<lambda>c eventId. (None, filter (\<lambda>e. ev_id e \<noteq> eventId) c))\<rparr>"

text \<open>
  Monday 15 January 2024, 14:00 in Dubai (10:00 UTC), on a server whose process runs in
  the Dubai zone, with a dentist's appointment at 17:00. The parser \<open>noDates\<close> finds no
  temporal expression; \<open>tomorrowAtNoon\<close> finds the two of ``tomorrow'' (the next day at
  14:00) and ``at noon'' (12:00 of the day). The two formatting functions print the time
  and the day of that instant, whatever they are given.
\<close>

definition dentist :: calendar_event where
  "dentist = \<lparr>ev_id = ''e3'', ev_summary = ''Dentist appointment'',
               ev_start = \<lparr>start_dateTime = Some 1705323600000, start_date = None\<rparr>\<rparr>"

definition noDates :: "string \<Rightarrow> parsed_result list" where
  "noDates text = []"

definition tomorrowAtNoon :: "string \<Rightarrow> parsed_result list" where
  "tomorrowAtNoon text =
     [\<lparr>pr_text = ''tomorrow'', pr_start = 1705399200000, pr_end = None\<rparr>,
      \<lparr>pr_text = ''at noon'', pr_start = 1705305600000, pr_end = None\<rparr>]"

definition dubaiServer :: "(string \<Rightarrow> parsed_result list) \<Rightarrow> env" where
  "dubaiServer parser =
     \<lparr>LocalTZA = dubaiZone, now = 1705312800000, chrono_parse = parser,
      toLocaleTimeString = (\<lambda>t. ''2:00 PM''), toLocaleDateString = (\<lambda>t. ''Monday, January 15'')\<rparr>"

section \<open>Facts about the string functions\<close>

text \<open>
  \<open>indexOf\<close> gives the first position at which the pattern starts, and \<open>includes\<close> is
  the substring relation.
\<close>

lemma indexOf_Some_iff:
  "indexOf s pat = Some i \<longleftrightarrow>
     i \<le> length s \<and> prefix pat (drop i s) \<and> (\<forall>j<i. \<not> prefix pat (drop j s))"
proof (induction s arbitrary: i)
  case Nil
  then show ?case by auto
next
  case (Cons c cs)
  show ?case
  proof (cases "prefix pat (c # cs)")
    case True
    then show ?thesis by (cases i) auto
  next
    case False
    show ?thesis
    proof (cases i)
      case 0
      with False show ?thesis by simp
    next
      case (Suc k)
      have "(\<forall>j<Suc k. \<not> prefix pat (drop j (c # cs))) \<longleftrightarrow> (\<forall>j<k. \<not> prefix pat (drop j cs))"
        using False by (auto simp: less_Suc_eq_0_disj)
      with False Suc Cons.IH[of k] show ?thesis by auto
    qed
  qed
qed

lemma indexOf_None_iff: "indexOf s pat = None \<longleftrightarrow> \<not> sublist pat s"
proof (induction s)
  case Nil
  then show ?case by (cases pat) auto
next
  case (Cons c cs)
  show ?case
  proof (cases pat)
    case Nil
    then show ?thesis by simp
  next
    case (Cons p ps)
    with Cons.IH show ?thesis by (simp add: sublist_Cons_right)
  qed
qed

lemma indexOf_Nil: "indexOf s [] = Some 0"
  by (cases s) simp_all

lemma includes_sublist: "str_includes s pat \<longleftrightarrow> sublist pat s"
  by (simp add: str_includes_def indexOf_None_iff)

lemma includes_empty: "str_includes s []"
  by (simp add: includes_sublist)

lemma replace_absent:
  "pat = [] \<or> \<not> str_includes s pat \<Longrightarrow> replace s pat [] = s"
  by (auto simp: replace_def str_includes_def indexOf_Nil)

lemma set_replace_empty: "set (replace s pat []) \<subseteq> set s"
  by (auto simp: replace_def split: option.splits dest: in_set_takeD in_set_dropD)

lemma sublist_trans: "sublist xs ys \<Longrightarrow> sublist ys zs \<Longrightarrow> sublist xs zs"
  using sublist_order.order_trans by blast

subsection \<open>Trimming\<close>

lemma trim_split:
  "dropWhile isWhiteSpace s = trim s @ rev (takeWhile isWhiteSpace (rev (dropWhile isWhiteSpace s)))"
  unfolding trim_def by (metis rev_append rev_rev_ident takeWhile_dropWhile_id)

lemma sublist_trim: "sublist (trim s) s"
proof -
  have "sublist (rev (dropWhile isWhiteSpace (rev (dropWhile isWhiteSpace s))))
          (dropWhile isWhiteSpace s)"
    by (simp add: sublist_rev_left)
  moreover have "sublist (dropWhile isWhiteSpace s) s"
    by simp
  ultimately show ?thesis
    unfolding trim_def by (rule sublist_trans)
qed

lemma set_trim: "set (trim s) \<subseteq> set s"
  using sublist_trim by (rule set_mono_sublist)

lemma trim_trim: "trim (trim s) = trim s"
proof -
  let ?d = "dropWhile isWhiteSpace s"
  let ?e = "dropWhile isWhiteSpace (rev ?d)"
  have t: "trim s = rev ?e"
    by (simp add: trim_def)
  have "dropWhile isWhiteSpace (rev ?e) = rev ?e"
  proof (cases "rev ?e = []")
    case True
    then show ?thesis by (simp only: dropWhile.simps)
  next
    case False
    then have "hd (rev ?e) = hd ?d"
      using trim_split [of s] t by (metis hd_append2)
    moreover from False have "?d \<noteq> []"
      by (metis dropWhile.simps(1) rev.simps(1))
    then have "\<not> isWhiteSpace (hd ?d)"
      by (rule hd_dropWhile)
    ultimately show ?thesis
      by (simp add: dropWhile_eq_self_iff)
  qed
  then show ?thesis
    unfolding t by (simp add: trim_def)
qed

subsection \<open>Lower case\<close>

lemma toLowerCaseChar_idem: "toLowerCaseChar (toLowerCaseChar c) = toLowerCaseChar c"
  unfolding toLowerCaseChar_def Let_def by auto

lemma toLowerCase_subset: "set t \<subseteq> set (toLowerCase s) \<Longrightarrow> toLowerCase t = t"
  unfolding toLowerCase_def by (rule map_idI) (auto simp: toLowerCaseChar_idem)

section \<open>Properties of the event matcher\<close>

text \<open>
  Claim C1. For every sequence of events and every search title, \<open>findMatchingEvent\<close>
  goes through the events in the order given and returns the first one whose lower-cased
  title contains the search title as a substring or is contained in it; it returns
  nothing exactly when no event passes the test in either direction.
\<close>

theorem findMatchingEvent_first_match:
  "(findMatchingEvent events searchTitle = None
      \<longleftrightarrow> (\<forall>e\<in>set events. \<not> containsEitherWay e searchTitle))
   \<and> (findMatchingEvent events searchTitle = Some e
      \<longleftrightarrow> (\<exists>i<length events. events ! i = e \<and> containsEitherWay e searchTitle
             \<and> (\<forall>j<i. \<not> containsEitherWay (events ! j) searchTitle)))"
  unfolding findMatchingEvent_def containsEitherWay_def includes_sublist
  by (auto simp: find_None_iff find_Some_iff)

text \<open>Scenario C: of ``Team Sync'' and ``Doctor'', the search title ``sync'' finds the first.\<close>

theorem findMatchingEvent_first_match_witness:
  "findMatchingEvent [teamSync, doctor] ''sync'' = Some teamSync
   \<and> containsEitherWay teamSync ''sync''"
proof -
  have "findMatchingEvent [teamSync, doctor] ''sync'' = Some teamSync"
    by code_simp
  with findMatchingEvent_first_match [of "[teamSync, doctor]" "''sync''" teamSync]
  show ?thesis by blast
qed

text \<open>
  Claim C9. With the empty search title \<open>findMatchingEvent\<close> returns the first event of
  every non-empty sequence, and on the empty sequence it returns nothing for every
  search title.
\<close>

theorem findMatchingEvent_boundary:
  "findMatchingEvent (e # es) [] = Some e \<and> findMatchingEvent [] searchTitle = None"
  by (simp add: findMatchingEvent_def includes_empty)

section \<open>Properties of the day range\<close>

lemma TimeClip_in_range: "\<bar>t\<bar> \<le> maxTimeValue \<Longrightarrow> TimeClip t = Some t"
  by (simp add: TimeClip_def)

lemma day_floor: "Day x * msPerDay \<le> x \<and> x < Day x * msPerDay + msPerDay"
proof -
  have "x = Day x * msPerDay + x mod msPerDay"
    by (simp add: Day_def)
  moreover have "0 \<le> x mod msPerDay" "x mod msPerDay < msPerDay"
    by (simp_all add: msPerDay_def)
  ultimately show ?thesis by linarith
qed

lemma Day_of_day_start: "0 \<le> k \<Longrightarrow> k < msPerDay \<Longrightarrow> Day (n * msPerDay + k) = n"
  unfolding Day_def msPerDay_def by (simp add: div_pos_pos_trivial)

lemma TimeWithinDay_of_day_start:
  "0 \<le> k \<Longrightarrow> k < msPerDay \<Longrightarrow> TimeWithinDay (n * msPerDay + k) = k"
  unfolding TimeWithinDay_def msPerDay_def by simp

text \<open>
  What the code computes: \<open>setHours\<close> works in the time zone of the server process. On
  a process whose zone is a fixed offset from UTC, and for a date at least one day inside
  the range of \<open>Date\<close>, the range is the local calendar day of the date in that zone,
  from 00:00:00.000 to 23:59:59.999 local time.
\<close>

lemma getDateRange_local_day:
  assumes "\<bar>d\<bar> \<le> maxTimeValue - msPerDay"
  shows "\<exists>r. getDateRange (fixedZone offset) (Some d) = Inr r
           \<and> timeMax r - timeMin r = 86399999
           \<and> TimeWithinDay (timeMin r + offset) = 0
           \<and> TimeWithinDay (timeMax r + offset) = MakeTime 23 59 59 999
           \<and> Day (timeMin r + offset) = Day (d + offset)
           \<and> Day (timeMax r + offset) = Day (d + offset)"
proof -
  define n where "n = Day (d + offset)"
  define t1 where "t1 = n * msPerDay - offset"
  define t2 where "t2 = n * msPerDay + 86399999 - offset"
  have fl: "n * msPerDay \<le> d + offset" "d + offset < n * msPerDay + msPerDay"
    using day_floor [of "d + offset"] by (simp_all add: n_def)
  have d: "\<bar>d\<bar> \<le> maxTimeValue"
    using assms by (simp add: msPerDay_def)
  have r1: "\<bar>t1\<bar> \<le> maxTimeValue"
    using fl assms unfolding t1_def msPerDay_def by linarith
  have r2: "\<bar>t2\<bar> \<le> maxTimeValue"
    using fl assms unfolding t2_def msPerDay_def by linarith
  have s1: "setHours (fixedZone offset) (Some d) 0 0 0 0 = Some t1"
    using r1 by (simp add: setHours_def fixedZone_def LocalTime_def UTC_def MakeDate_def
        MakeTime_def TimeClip_in_range n_def t1_def)
  have e: "Day (t1 + offset) = n"
    using Day_of_day_start [of 0 n] by (simp add: t1_def msPerDay_def)
  then have s2: "setHours (fixedZone offset) (Some t1) 23 59 59 999 = Some t2"
    using r2 by (simp add: setHours_def fixedZone_def LocalTime_def UTC_def MakeDate_def
        MakeTime_def TimeClip_in_range t2_def msPerHour_def msPerMinute_def msPerSecond_def)
  have g: "getDateRange (fixedZone offset) (Some d) = Inr \<lparr>timeMin = t1, timeMax = t2\<rparr>"
    using d r1 r2 s1 s2
    by (simp add: getDateRange_def newDate_def TimeClip_in_range toISOString_def)
  have a: "t2 - t1 = 86399999"
    by (simp add: t1_def t2_def)
  have b: "TimeWithinDay (t1 + offset) = 0"
    using TimeWithinDay_of_day_start [of 0 n] by (simp add: t1_def msPerDay_def)
  have c: "TimeWithinDay (t2 + offset) = MakeTime 23 59 59 999"
    using TimeWithinDay_of_day_start [of 86399999 n]
    by (simp add: t2_def msPerDay_def MakeTime_def msPerHour_def msPerMinute_def msPerSecond_def)
  have f: "Day (t2 + offset) = n"
    using Day_of_day_start [of 86399999 n] by (simp add: t2_def msPerDay_def)
  show ?thesis
    using g a b c e f by (auto simp: n_def)
qed

text \<open>
  On a server whose process runs in the Dubai zone the range of 15 January 2024, 14:00 in
  Dubai, is that calendar day of Dubai.
\<close>

lemma getDateRange_dubai_process:
  "getDateRange dubaiZone (Some 1705312800000)
     = Inr \<lparr>timeMin = 1705262400000, timeMax = 1705348799999\<rparr>
   \<and> dubaiDay 1705262400000 = dubaiDay 1705348799999
   \<and> TimeWithinDay (LocalTime dubaiZone 1705262400000) = 0
   \<and> TimeWithinDay (LocalTime dubaiZone 1705348799999) = MakeTime 23 59 59 999"
  by code_simp

text \<open>
  On a server whose process has daylight saving, the range of the day on which the
  clocks go forward is an hour short: 82,799,999 ms.
\<close>

lemma getDateRange_daylight_saving:
  "getDateRange berlinSpring2024 (Some 1711879200000)
     = Inr \<lparr>timeMin = 1711839600000, timeMax = 1711922399999\<rparr>
   \<and> (1711922399999 :: int) - 1711839600000 = 82799999"
  by code_simp

text \<open>
  Claim C4. The range is to be the calendar day of the display time zone Asia/Dubai,
  from 00:00:00.000 to 23:59:59.999 of that zone. \<open>getDateRange\<close> takes the day of the
  zone of the server process instead: on a server whose zone is UTC, the range of
  15 January 2024, 14:00 in Dubai, runs from 04:00:00.000 in Dubai to 03:59:59.999 of the
  next calendar day in Dubai.
\<close>

theorem getDateRange_utc_server:
  "getDateRange (fixedZone 0) (Some 1705312800000)
     = Inr \<lparr>timeMin = 1705276800000, timeMax = 1705363199999\<rparr>
   \<and> dubaiDay 1705276800000 \<noteq> dubaiDay 1705363199999
   \<and> TimeWithinDay (LocalTime dubaiZone 1705276800000) = MakeTime 4 0 0 0
   \<and> TimeWithinDay (LocalTime dubaiZone 1705363199999) = MakeTime 3 59 59 999"
  by code_simp

section \<open>Properties of the drafts\<close>

lemma createEventObject_value:
  assumes "\<bar>pr_start expression\<bar> \<le> maxTimeValue"
      and "case pr_end expression of
             None \<Rightarrow> pr_start expression + 3600000 \<le> maxTimeValue
           | Some e \<Rightarrow> \<bar>e\<bar> \<le> maxTimeValue"
  shows "createEventObject title expression =
           Inr \<lparr>res_summary = title,
                res_start = \<lparr>dateTime = pr_start expression, timeZone = ''Asia/Dubai''\<rparr>,
                res_end = \<lparr>dateTime = (case pr_end expression of
                                          None \<Rightarrow> pr_start expression + 3600000
                                        | Some e \<Rightarrow> e),
                           timeZone = ''Asia/Dubai''\<rparr>\<rparr>"
proof (cases "pr_end expression")
  case None
  with assms have "\<bar>pr_start expression + 3600000\<bar> \<le> maxTimeValue"
    by (simp add: maxTimeValue_def)
  with None assms(1) show ?thesis
    by (simp add: createEventObject_def toISOString_def newDate_def TimeClip_in_range)
next
  case (Some e)
  with assms show ?thesis
    by (simp add: createEventObject_def toISOString_def TimeClip_in_range)
qed

text \<open>
  Claim C5. For every title and every parsed expression whose instants are time values
  of a \<open>Date\<close> (and, without an end, whose start is not in the last hour of the range of
  \<open>Date\<close>), \<open>createEventObject\<close> produces a draft; without an end instant the end of the
  draft minus its start is exactly 3,600,000 ms, and with an end instant the end of the
  draft is that instant.
\<close>

theorem createEventObject_end_instant:
  assumes "\<bar>pr_start expression\<bar> \<le> maxTimeValue"
      and "case pr_end expression of
             None \<Rightarrow> pr_start expression + 3600000 \<le> maxTimeValue
           | Some e \<Rightarrow> \<bar>e\<bar> \<le> maxTimeValue"
  shows "\<exists>draft. createEventObject title expression = Inr draft
           \<and> res_summary draft = title
           \<and> dateTime (res_start draft) = pr_start expression
           \<and> (case pr_end expression of
                 None \<Rightarrow> dateTime (res_end draft) - dateTime (res_start draft) = 3600000
               | Some e \<Rightarrow> dateTime (res_end draft) = e)"
  using createEventObject_value [OF assms, of title]
  by (cases "pr_end expression") simp_all

text \<open>
  Scenario A, ``tomorrow at noon'' on 15 January 2024 in Dubai, and the same start with
  an end two hours later.
\<close>

theorem createEventObject_end_instant_witness:
  "(\<exists>draft. createEventObject ''lunch with Sam''
               \<lparr>pr_text = ''tomorrow at noon'', pr_start = 1705392000000, pr_end = None\<rparr> = Inr draft
            \<and> dateTime (res_end draft) - dateTime (res_start draft) = 3600000)
   \<and> (\<exists>draft. createEventObject ''lunch with Sam''
               \<lparr>pr_text = ''tomorrow from noon to 2pm'', pr_start = 1705392000000,
                  pr_end = Some 1705399200000\<rparr> = Inr draft
            \<and> dateTime (res_end draft) = 1705399200000)"
  using createEventObject_end_instant
          [of "\<lparr>pr_text = ''tomorrow at noon'', pr_start = 1705392000000, pr_end = None\<rparr>"
              "''lunch with Sam''"]
        createEventObject_end_instant
          [of "\<lparr>pr_text = ''tomorrow from noon to 2pm'', pr_start = 1705392000000,
                 pr_end = Some 1705399200000\<rparr>" "''lunch with Sam''"]
  by (auto simp: maxTimeValue_def)

section \<open>Properties of the title of a new event\<close>

lemma extractEventTitle_removeEach:
  "extractEventTitle u ds = removeEach u (map pr_text ds)"
  unfolding extractEventTitle_def by (induction ds arbitrary: u) simp_all

text \<open>
  Claim C6, amended. \<open>replace\<close> removes the first occurrence of the matched text in the
  utterance, whether or not it is the span the parser matched. For every utterance \<open>u\<close>
  and expression \<open>e\<close> whose matched text occurs in \<open>u\<close>, first at position \<open>pos\<close>,
  \<open>extractEventTitle u [e]\<close> is the text before that occurrence followed by the text
  after it, trimmed; it does not contain the matched text whenever that remainder does
  not, that is, when the matched text occurs once in \<open>u\<close> and its removal joins no new
  occurrence.
\<close>

theorem extractEventTitle_single:
  assumes "indexOf u (pr_text e) = Some pos"
  shows "extractEventTitle u [e] = trim (take pos u @ drop (pos + length (pr_text e)) u)
         \<and> (\<not> str_includes (take pos u @ drop (pos + length (pr_text e)) u) (pr_text e)
              \<longrightarrow> \<not> str_includes (extractEventTitle u [e]) (pr_text e))"
proof -
  let ?rest = "take pos u @ drop (pos + length (pr_text e)) u"
  have eq: "extractEventTitle u [e] = trim ?rest"
    using assms by (simp add: extractEventTitle_def replace_def)
  have "\<not> sublist (pr_text e) (trim ?rest)" if free: "\<not> str_includes ?rest (pr_text e)"
  proof
    assume "sublist (pr_text e) (trim ?rest)"
    then have "sublist (pr_text e) ?rest"
      using sublist_trim [of ?rest] by (rule sublist_trans)
    with free show False
      by (simp add: includes_sublist)
  qed
  with eq show ?thesis
    by (simp add: includes_sublist)
qed

text \<open>Scenario A: ``lunch with Sam tomorrow at noon'' gives ``lunch with Sam''.\<close>

theorem extractEventTitle_single_witness:
  "extractEventTitle ''lunch with Sam tomorrow at noon''
     [\<lparr>pr_text = ''tomorrow at noon'', pr_start = 1705392000000, pr_end = None\<rparr>] = ''lunch with Sam''
   \<and> \<not> str_includes ''lunch with Sam'' ''tomorrow at noon''"
proof -
  let ?e = "\<lparr>pr_text = ''tomorrow at noon'', pr_start = 1705392000000, pr_end = None\<rparr>"
  have a: "indexOf ''lunch with Sam tomorrow at noon'' (pr_text ?e) = Some 15"
    by code_simp
  have b: "\<not> str_includes (take 15 ''lunch with Sam tomorrow at noon''
              @ drop (15 + length (pr_text ?e)) ''lunch with Sam tomorrow at noon'') (pr_text ?e)"
    by code_simp
  have c: "trim (take 15 ''lunch with Sam tomorrow at noon''
              @ drop (15 + length (pr_text ?e)) ''lunch with Sam tomorrow at noon'') = ''lunch with Sam''"
    by code_simp
  from extractEventTitle_single [OF a] b c show ?thesis
    by auto
qed

text \<open>
  In ``Know your customer now'' the text ``now'' occurs first inside ``Know'': that
  occurrence is removed, and the temporal expression at the end stays in the title.
\<close>

theorem extractEventTitle_keeps_text_counterexample:
  "indexOf ''Know your customer now'' ''now'' = Some 1
   \<and> extractEventTitle ''Know your customer now''
     [\<lparr>pr_text = ''now'', pr_start = 1705312800000, pr_end = None\<rparr>] = ''K your customer now''
   \<and> str_includes ''K your customer now'' ''now''"
  by code_simp

section \<open>Properties of the routes\<close>

text \<open>
  Claim C10. When the text of a create request parses to one or more expressions and
  the draft can be built from the first, the one backend call of the route inserts a
  draft whose title is the text with the matched text of every expression removed, one
  first-occurrence removal per expression in order and a trim after each, and whose
  start and end instants are those of the first expression alone.
\<close>

theorem createRoute_title_and_instants:
  assumes "text \<noteq> []"
      and "chrono_parse E text = first # others"
      and "\<bar>pr_start first\<bar> \<le> maxTimeValue"
      and "case pr_end first of
             None \<Rightarrow> pr_start first + 3600000 \<le> maxTimeValue
           | Some e \<Rightarrow> \<bar>e\<bar> \<le> maxTimeValue"
  shows "\<exists>draft. calls (createRoute E B c \<lparr>eventText = Some text, dateText = other\<rparr>)
                    = [EventsInsert draft]
           \<and> res_summary draft = removeEach text (map pr_text (first # others))
           \<and> dateTime (res_start draft) = pr_start first
           \<and> dateTime (res_end draft)
               = (case pr_end first of None \<Rightarrow> pr_start first + 3600000 | Some e \<Rightarrow> e)"
proof -
  let ?title = "extractEventTitle text (first # others)"
  have "calls (createRoute E B c \<lparr>eventText = Some text, dateText = other\<rparr>)
          = [EventsInsert \<lparr>res_summary = ?title,
                res_start = \<lparr>dateTime = pr_start first, timeZone = ''Asia/Dubai''\<rparr>,
                res_end = \<lparr>dateTime = (case pr_end first of
                                          None \<Rightarrow> pr_start first + 3600000
                                        | Some e \<Rightarrow> e),
                           timeZone = ''Asia/Dubai''\<rparr>\<rparr>]"
    using assms(1,2) createEventObject_value [OF assms(3,4), of ?title]
    by (simp add: createRoute_def Let_def split: prod.splits option.splits)
  then show ?thesis
    by (simp add: extractEventTitle_removeEach)
qed

text \<open>
  ``lunch tomorrow with Sam at noon'' with the two expressions ``tomorrow'' and ``at
  noon'': both texts leave the title, and the instants are those of ``tomorrow''.
\<close>

theorem createRoute_title_and_instants_witness:
  "\<exists>draft. calls (createRoute (dubaiServer tomorrowAtNoon) listCalendar [dentist]
                    \<lparr>eventText = Some ''lunch tomorrow with Sam at noon'', dateText = None\<rparr>)
              = [EventsInsert draft]
      \<and> res_summary draft = ''lunch  with Sam''
      \<and> dateTime (res_start draft) = 1705399200000
      \<and> dateTime (res_end draft) = 1705402800000"
proof -
  have p: "chrono_parse (dubaiServer tomorrowAtNoon) ''lunch tomorrow with Sam at noon''
             = \<lparr>pr_text = ''tomorrow'', pr_start = 1705399200000, pr_end = None\<rparr>
               # [\<lparr>pr_text = ''at noon'', pr_start = 1705305600000, pr_end = None\<rparr>]"
    by (simp add: dubaiServer_def tomorrowAtNoon_def)
  have t: "removeEach ''lunch tomorrow with Sam at noon'' [''tomorrow'', ''at noon'']
             = ''lunch  with Sam''"
    by code_simp
  from createRoute_title_and_instants [OF _ p, of listCalendar "[dentist]" None] t
  show ?thesis
    by (simp add: maxTimeValue_def)
qed

text \<open>
  Claim C3, amended. For every create or query request whose text is not empty and
  yields the empty sequence from the temporal parser, the route answers with its fixed
  message (\<open>I couldn't understand the date and time for this event.\<close> for create,
  \<open>I couldn't understand which date you meant.\<close> for query), makes no backend call
  and leaves the calendar as it is. A delete request with such a text goes on with the
  current instant as target date: its first backend call lists the events of that day.
\<close>

theorem empty_parse_routes:
  assumes "chrono_parse E text = []" and "text \<noteq> []"
  shows "createRoute E B c \<lparr>eventText = Some text, dateText = other\<rparr>
           = \<lparr>response = reply ''I couldn't understand the date and time for this event.'',
              calls = [], calendar = c\<rparr>
         \<and> queryRoute E B c \<lparr>eventText = other, dateText = Some text\<rparr>
           = \<lparr>response = reply ''I couldn't understand which date you meant.'',
              calls = [], calendar = c\<rparr>
         \<and> (\<forall>r. getDateRange (LocalTZA E) (TimeClip (now E)) = Inr r \<longrightarrow>
               (\<exists>more. calls (deleteRoute E B c \<lparr>eventText = Some text, dateText = other\<rparr>)
                         = EventsList (timeMin r) (timeMax r) # more))"
  using assms
  by (auto simp: createRoute_def queryRoute_def deleteRoute_def Let_def
           split: sum.splits option.splits prod.splits)

text \<open>``lunch with Sam'', in which the parser finds no date.\<close>

theorem empty_parse_routes_witness:
  "createRoute (dubaiServer noDates) listCalendar [dentist]
       \<lparr>eventText = Some ''lunch with Sam'', dateText = None\<rparr>
     = \<lparr>response = reply ''I couldn't understand the date and time for this event.'',
        calls = [], calendar = [dentist]\<rparr>
   \<and> (\<exists>more. calls (deleteRoute (dubaiServer noDates) listCalendar [dentist]
                      \<lparr>eventText = Some ''lunch with Sam'', dateText = None\<rparr>)
               = EventsList 1705262400000 1705348799999 # more)"
proof -
  have p: "chrono_parse (dubaiServer noDates) ''lunch with Sam'' = []"
    by (simp add: dubaiServer_def noDates_def)
  have r: "getDateRange (LocalTZA (dubaiServer noDates)) (TimeClip (now (dubaiServer noDates)))
             = Inr \<lparr>timeMin = 1705262400000, timeMax = 1705348799999\<rparr>"
    by code_simp
  from empty_parse_routes [OF p, of listCalendar "[dentist]" None] r show ?thesis
    by simp
qed

text \<open>
  ``cancel my dentist appointment'' holds no date: the delete route lists the events of
  today, finds the dentist's appointment and deletes it.
\<close>

theorem deleteRoute_empty_parse_counterexample:
  "chrono_parse (dubaiServer noDates) ''cancel my dentist appointment'' = []
   \<and> calls (deleteRoute (dubaiServer noDates) listCalendar [dentist]
              \<lparr>eventText = Some ''cancel my dentist appointment'', dateText = None\<rparr>)
       = [EventsList 1705262400000 1705348799999, EventsDelete ''e3'']
   \<and> calendar (deleteRoute (dubaiServer noDates) listCalendar [dentist]
              \<lparr>eventText = Some ''cancel my dentist appointment'', dateText = None\<rparr>) = []"
  by code_simp

text \<open>
  Claim C8. Every delete request makes at most one deletion, and the calendar after the
  request is the one the backend returns for that deletion, or the calendar as it was
  when there is none. When the backend has listed the events of the target day, the
  route deletes exactly the event that \<open>findMatchingEvent\<close> yields for the search title:
  one call of the backend's deletion with its identifier, whose calendar is the one left
  and whose verdict decides the response; and when \<open>findMatchingEvent\<close> yields none, the
  listing is the only backend call, the calendar is as before, and the response names
  the search title and the formatted target date.
\<close>

theorem deleteRoute_deletions:
  "length (deletions (calls (deleteRoute E B c body))) \<le> 1
   \<and> (case deletions (calls (deleteRoute E B c body)) of
         [] \<Rightarrow> calendar (deleteRoute E B c body) = c
       | eventId # others \<Rightarrow>
           calendar (deleteRoute E B c body) = snd (events_delete B c eventId))
   \<and> (\<forall>text r events.
        eventText body = Some text \<and> text \<noteq> []
        \<and> getDateRange (LocalTZA E)
              (case chrono_parse E text of [] \<Rightarrow> TimeClip (now E)
               | first # rest \<Rightarrow> TimeClip (pr_start first)) = Inr r
        \<and> events_list B c (timeMin r) (timeMax r) = Inr events \<longrightarrow>
        (case findMatchingEvent events (extractSearchTitle text (chrono_parse E text)) of
           Some matchingEvent \<Rightarrow>
             calls (deleteRoute E B c body)
               = [EventsList (timeMin r) (timeMax r), EventsDelete (ev_id matchingEvent)]
             \<and> calendar (deleteRoute E B c body)
               = snd (events_delete B c (ev_id matchingEvent))
             \<and> response (deleteRoute E B c body)
               = (case fst (events_delete B c (ev_id matchingEvent)) of
                    Some m \<Rightarrow>
                      handleApiError (BackendError m)
                        ''Sorry, I couldn't cancel the event right now.''
                  | None \<Rightarrow>
                      reply (''I've cancelled \"'' @ ev_summary matchingEvent @ ''\" at ''
                               @ formatTime E (startOf matchingEvent) @ ''.''))
         | None \<Rightarrow>
             deleteRoute E B c body
               = \<lparr>response = reply
                    (''I couldn't find an event matching \"''
                       @ extractSearchTitle text (chrono_parse E text) @ ''\" for ''
                       @ formatDate E (case chrono_parse E text of [] \<Rightarrow> TimeClip (now E)
                                       | first # rest \<Rightarrow> TimeClip (pr_start first)) @ ''.''),
                  calls = [EventsList (timeMin r) (timeMax r)], calendar = c\<rparr>))"
  by (auto simp: deleteRoute_def Let_def split: sum.splits option.splits prod.splits list.splits)

text \<open>
  With the dentist's appointment in the calendar: ``cancel my dentist appointment''
  deletes it and leaves the calendar empty, and ``cancel golf'' finds nothing and leaves
  the calendar alone.
\<close>

theorem deleteRoute_deletions_witness:
  "calls (deleteRoute (dubaiServer noDates) listCalendar [dentist]
            \<lparr>eventText = Some ''cancel my dentist appointment'', dateText = None\<rparr>)
     = [EventsList 1705262400000 1705348799999, EventsDelete ''e3'']
   \<and> calendar (deleteRoute (dubaiServer noDates) listCalendar [dentist]
            \<lparr>eventText = Some ''cancel my dentist appointment'', dateText = None\<rparr>) = []
   \<and> deleteRoute (dubaiServer noDates) listCalendar [dentist]
            \<lparr>eventText = Some ''cancel golf'', dateText = None\<rparr>
     = \<lparr>response = reply ''I couldn't find an event matching \"golf\" for Monday, January 15.'',
        calls = [EventsList 1705262400000 1705348799999], calendar = [dentist]\<rparr>"
proof -
  let ?E = "dubaiServer noDates"
  let ?r = "\<lparr>timeMin = 1705262400000, timeMax = 1705348799999\<rparr>"
  have p: "chrono_parse ?E utterance = []" for utterance
    by (simp add: dubaiServer_def noDates_def)
  have r: "getDateRange (LocalTZA ?E) (TimeClip (now ?E)) = Inr ?r"
    by code_simp
  have l: "events_list listCalendar [dentist] (timeMin ?r) (timeMax ?r) = Inr [dentist]"
    by code_simp
  have m: "findMatchingEvent [dentist] (extractSearchTitle ''cancel my dentist appointment'' [])
             = Some dentist"
    by code_simp
  have n: "findMatchingEvent [dentist] (extractSearchTitle ''cancel golf'' []) = None"
    by code_simp
  have t: "extractSearchTitle ''cancel golf'' [] = ''golf''"
    by code_simp
  have f: "formatDate ?E (TimeClip (now ?E)) = ''Monday, January 15''"
    by code_simp
  have i: "ev_id dentist = ''e3''"
    by (simp add: dentist_def)
  have d: "snd (events_delete listCalendar [dentist] ''e3'') = []"
    by code_simp
  from deleteRoute_deletions [of ?E listCalendar "[dentist]"
         "\<lparr>eventText = Some ''cancel my dentist appointment'', dateText = None\<rparr>"]
  have "calls (deleteRoute ?E listCalendar [dentist]
            \<lparr>eventText = Some ''cancel my dentist appointment'', dateText = None\<rparr>)
     = [EventsList 1705262400000 1705348799999, EventsDelete ''e3'']
     \<and> calendar (deleteRoute ?E listCalendar [dentist]
            \<lparr>eventText = Some ''cancel my dentist appointment'', dateText = None\<rparr>) = []"
    using r l m i d by (simp add: p)
  moreover
  from deleteRoute_deletions [of ?E listCalendar "[dentist]"
         "\<lparr>eventText = Some ''cancel golf'', dateText = None\<rparr>"]
  have "deleteRoute ?E listCalendar [dentist] \<lparr>eventText = Some ''cancel golf'', dateText = None\<rparr>
     = \<lparr>response = reply ''I couldn't find an event matching \"golf\" for Monday, January 15.'',
        calls = [EventsList 1705262400000 1705348799999], calendar = [dentist]\<rparr>"
    using r l n t f by (simp add: p)
  ultimately show ?thesis
    by simp
qed

section \<open>Properties of the search title\<close>

text \<open>
  Claim C2. \<open>extractSearchTitle\<close> lower-cases the utterance but removes the matched text
  of each expression as the parser returned it. For ``cancel dentist Friday'' with the
  matched text ``Friday'' nothing is removed from ``cancel dentist friday'', and the
  search title keeps the lower-cased matched text, which occurs once in the utterance.
\<close>

theorem extractSearchTitle_keeps_capitalised_date:
  "extractSearchTitle ''cancel dentist Friday''
     [\<lparr>pr_text = ''Friday'', pr_start = 1705651200000, pr_end = None\<rparr>] = ''dentist friday''
   \<and> str_includes ''dentist friday'' (toLowerCase ''Friday'')"
  by code_simp

subsection \<open>Where the regular expression matches\<close>

text \<open>
  A verb matches characters that are letters in either case, so the expression matches
  at a position exactly when no word character stands before it and a verb followed by
  no word character stands at it; every match is six characters long.
\<close>

lemma find_Some_set: "List.find P xs = Some x \<Longrightarrow> x \<in> set xs \<and> P x"
  by (induction xs) (auto split: if_splits)

lemma canonicalize_letter:
  assumes "canonicalize p = canonicalize c" and "97 \<le> (of_char p :: nat)" and "(of_char p :: nat) \<le> 122"
  shows "isWordChar c"
proof (cases "97 \<le> (of_char c :: nat) \<and> (of_char c :: nat) \<le> 122")
  case True
  then show ?thesis by (simp add: isWordChar_def)
next
  case False
  with assms have "c = char_of ((of_char p :: nat) - 32)"
    by (auto simp: canonicalize_def Let_def)
  then have "(of_char c :: nat) = ((of_char p :: nat) - 32) mod 256"
    by simp
  with assms(2,3) have "(of_char c :: nat) = of_char p - 32"
    by simp
  with assms(2,3) show ?thesis
    by (auto simp: isWordChar_def Let_def)
qed

lemma matchLiteral_word:
  "matchLiteral w s \<Longrightarrow> \<forall>p\<in>set w. 97 \<le> (of_char p :: nat) \<and> (of_char p :: nat) \<le> 122
     \<Longrightarrow> length w \<le> length s \<and> (\<forall>i<length w. isWordChar (s ! i))"
proof (induction w s rule: matchLiteral.induct)
  case (1 s)
  then show ?case by simp
next
  case (2 p ps)
  then show ?case by simp
next
  case (3 p ps c cs)
  then have "isWordChar c"
    using canonicalize_letter [of p c] by simp
  with 3 show ?case
    by (auto simp: nth_Cons split: nat.splits)
qed

lemma verbs_letters:
  "w \<in> set verbs \<Longrightarrow> length w = 6 \<and> (\<forall>p\<in>set w. 97 \<le> (of_char p :: nat) \<and> (of_char p :: nat) \<le> 122)"
  by (auto simp: verbs_def)

lemma verb_match_word:
  assumes "w \<in> set verbs" and "matchLiteral w s"
  shows "6 \<le> length s \<and> (\<forall>i<6. isWordChar (s ! i))"
  using matchLiteral_word [OF assms(2)] verbs_letters [OF assms(1)] by auto

lemma matchVerbAt_iff:
  "matchVerbAt prev s = (if \<not> isWordCharAt prev \<and> verbAhead s then Some 6 else None)"
proof (cases "List.find (\<lambda>w. matchLiteral w s
         \<and> wordBoundary (charAt s (length w - 1)) (charAt s (length w))) verbs")
  case None
  then have no: "\<forall>w\<in>set verbs. \<not> (matchLiteral w s
         \<and> wordBoundary (charAt s (length w - 1)) (charAt s (length w)))"
    by (simp add: find_None_iff)
  have "\<not> verbAhead s"
  proof
    assume "verbAhead s"
    then obtain w where w: "w \<in> set verbs" "matchLiteral w s" and b: "\<not> isWordCharAt (charAt s 6)"
      by (auto simp: verbAhead_def)
    from verb_match_word [OF w] have "isWordCharAt (charAt s 5)"
      by (simp add: charAt_def isWordCharAt_def)
    with b w no verbs_letters [OF w(1)] show False
      by (auto simp: wordBoundary_def)
  qed
  with None show ?thesis
    by (simp add: matchVerbAt_def)
next
  case (Some w)
  from find_Some_set [OF Some] have w: "w \<in> set verbs" "matchLiteral w s"
    and b: "wordBoundary (charAt s (length w - 1)) (charAt s (length w))"
    by auto
  from verb_match_word [OF w] have five: "isWordCharAt (charAt s 5)" and zero: "isWordCharAt (charAt s 0)"
    by (auto simp: charAt_def isWordCharAt_def)
  from b five verbs_letters [OF w(1)] have "\<not> isWordCharAt (charAt s 6)"
    by (auto simp: wordBoundary_def)
  with w have "verbAhead s"
    by (auto simp: verbAhead_def)
  with Some zero verbs_letters [OF w(1)] show ?thesis
    by (auto simp: matchVerbAt_def wordBoundary_def)
qed

subsection \<open>What the replacement keeps\<close>

text \<open>
  A string without a match is returned as it is. Behind a word character and at a
  non-word character nothing matches, so a run of word characters that the result starts
  with is a run the input starts with.
\<close>

lemma replaceVerbs_Nil [simp]: "replaceVerbs prev [] = []"
  by (subst replaceVerbs.simps) simp

lemma verbFree_fixed: "verbFree prev s \<Longrightarrow> replaceVerbs prev s = s"
proof (induction s arbitrary: prev)
  case Nil
  then show ?case by simp
next
  case (Cons c cs)
  then show ?case by (subst replaceVerbs.simps) simp
qed

lemma replaceVerbs_after_word:
  "isWordCharAt prev \<Longrightarrow> replaceVerbs prev (c # cs) = c # replaceVerbs (Some c) cs"
  by (subst replaceVerbs.simps) (simp add: matchVerbAt_iff)

lemma not_word_no_verb: "\<not> isWordChar c \<Longrightarrow> \<not> verbAhead (c # cs)"
proof
  assume c: "\<not> isWordChar c" and "verbAhead (c # cs)"
  then obtain w where "w \<in> set verbs" "matchLiteral w (c # cs)"
    by (auto simp: verbAhead_def)
  from verb_match_word [OF this] have "\<forall>i<6. isWordChar ((c # cs) ! i)"
    by simp
  then have "isWordChar ((c # cs) ! 0)"
    by (rule allE [of _ 0]) simp
  with c show False by simp
qed

lemma replaceVerbs_not_word:
  "\<not> isWordChar c \<Longrightarrow> replaceVerbs prev (c # cs) = c # replaceVerbs (Some c) cs"
  by (subst replaceVerbs.simps) (simp add: matchVerbAt_iff not_word_no_verb)

lemma wordAhead_0: "wordAhead 0 s \<longleftrightarrow> (case s of [] \<Rightarrow> True | c # cs \<Rightarrow> \<not> isWordChar c)"
  by (cases s) (simp_all add: wordAhead_def charAt_def isWordCharAt_def)

lemma wordAhead_Suc:
  "wordAhead (Suc k) s \<longleftrightarrow> (case s of [] \<Rightarrow> False | c # cs \<Rightarrow> isWordChar c \<and> wordAhead k cs)"
  by (cases s) (auto simp: wordAhead_def charAt_def isWordCharAt_def nth_Cons less_Suc_eq_0_disj)

lemma replaceVerbs_keeps_word:
  "isWordCharAt prev \<Longrightarrow> wordAhead k (replaceVerbs prev s)
     \<Longrightarrow> take k (replaceVerbs prev s) = take k s \<and> wordAhead k s"
proof (induction k arbitrary: prev s)
  case 0
  then show ?case
    by (cases s) (auto simp: wordAhead_0 replaceVerbs_after_word)
next
  case (Suc k)
  show ?case
  proof (cases s)
    case Nil
    with Suc.prems show ?thesis by (simp add: wordAhead_Suc)
  next
    case (Cons c cs)
    with Suc.prems have out: "replaceVerbs prev s = c # replaceVerbs (Some c) cs"
      by (simp add: replaceVerbs_after_word)
    with Suc.prems have c: "isWordChar c" and w: "wordAhead k (replaceVerbs (Some c) cs)"
      by (simp_all add: wordAhead_Suc)
    from c have "isWordCharAt (Some c)"
      by (simp add: isWordCharAt_def)
    from Suc.IH [OF this w] out c Cons show ?thesis
      by (simp add: wordAhead_Suc)
  qed
qed


subsection \<open>The result of the replacement holds no match\<close>

lemma matchLiteral_take: "matchLiteral w (take (length w) s) = matchLiteral w s"
  by (induction w s rule: matchLiteral.induct) simp_all

lemma matchLiteral_same_start:
  "take (length w) s = take (length w) s' \<Longrightarrow> matchLiteral w s = matchLiteral w s'"
  by (metis matchLiteral_take)

lemma charAt_drop: "charAt (drop k s) 0 = charAt s k"
  by (auto simp: charAt_def)

lemma wordAhead_0_drop: "wordAhead 0 (drop k s) \<longleftrightarrow> \<not> isWordCharAt (charAt s k)"
  by (simp add: wordAhead_def charAt_drop)

lemma verbAhead_wordAhead: "verbAhead s \<Longrightarrow> wordAhead 6 s"
  unfolding verbAhead_def wordAhead_def using verb_match_word by blast

lemma verbAhead_same_start:
  assumes "verbAhead s" and "take 6 s = take 6 s'" and "wordAhead 6 s'"
  shows "verbAhead s'"
proof -
  from assms(1) obtain w where w: "w \<in> set verbs" "matchLiteral w s"
    by (auto simp: verbAhead_def)
  with assms(2) verbs_letters [OF w(1)] have "matchLiteral w s'"
    using matchLiteral_same_start [of w s s'] by simp
  with w(1) assms(3) show ?thesis
    by (auto simp: verbAhead_def wordAhead_def)
qed

lemma replaceVerbs_verbFree:
  "isWordCharAt q = isWordCharAt prev \<or> (\<not> isWordCharAt q \<and> wordAhead 0 s)
     \<Longrightarrow> verbFree q (replaceVerbs prev s)"
proof (induction prev s arbitrary: q rule: replaceVerbs.induct)
  case (1 prev s)
  show ?case
  proof (cases s)
    case Nil
    then show ?thesis by simp
  next
    case (Cons c cs)
    show ?thesis
    proof (cases "matchVerbAt prev s")
      case None
      have rest: "verbFree (Some c) (replaceVerbs (Some c) cs)"
        using "1.IH"(1) [OF Cons None, of "Some c"] by simp
      have out: "replaceVerbs prev s = c # replaceVerbs (Some c) cs"
        using None Cons by (subst replaceVerbs.simps) simp
      have "\<not> (\<not> isWordCharAt q \<and> verbAhead (c # replaceVerbs (Some c) cs))"
      proof
        assume a: "\<not> isWordCharAt q \<and> verbAhead (c # replaceVerbs (Some c) cs)"
        then have six: "wordAhead 6 (c # replaceVerbs (Some c) cs)"
          by (simp add: verbAhead_wordAhead)
        then have c: "isWordChar c" and five: "wordAhead 5 (replaceVerbs (Some c) cs)"
          using wordAhead_Suc [of 5 "c # replaceVerbs (Some c) cs"] by simp_all
        from c have "isWordCharAt (Some c)"
          by (simp add: isWordCharAt_def)
        from replaceVerbs_keeps_word [OF this five]
        have same: "take 5 (replaceVerbs (Some c) cs) = take 5 cs" and w5: "wordAhead 5 cs"
          by simp_all
        from c w5 have w6: "wordAhead 6 (c # cs)"
          using wordAhead_Suc [of 5 "c # cs"] by simp
        have "take 6 (c # replaceVerbs (Some c) cs) = take 6 (c # cs)"
          using same by (simp add: take_Cons')
        with a w6 have "verbAhead (c # cs)"
          using verbAhead_same_start by blast
        moreover from c "1.prems" Cons have "isWordCharAt q = isWordCharAt prev"
          by (auto simp: wordAhead_0)
        ultimately show False
          using a None Cons by (simp add: matchVerbAt_iff)
      qed
      with rest out show ?thesis
        by (simp add: matchVerbAt_iff)
    next
      case (Some n)
      then have n: "n = 6" and p: "\<not> isWordCharAt prev" and v: "verbAhead s"
        by (auto simp: matchVerbAt_iff split: if_splits)
      from v have c: "isWordChar c" and after: "\<not> isWordCharAt (charAt s 6)"
        using verbAhead_wordAhead [of s] wordAhead_Suc [of 5 s] Cons
        by (auto simp: verbAhead_def)
      from c "1.prems" Cons p have q: "\<not> isWordCharAt q"
        by (auto simp: wordAhead_0)
      have out: "replaceVerbs prev s = replaceVerbs (charAt s (n - 1)) (drop n s)"
        using Some Cons by (subst replaceVerbs.simps) simp
      have "verbFree q (replaceVerbs (charAt s (n - 1)) (drop n s))"
        using "1.IH"(2) [OF Cons Some, of q] q after n by (simp add: wordAhead_0_drop)
      with out show ?thesis by simp
    qed
  qed
qed

lemma replaceVerbs_None_verbFree: "verbFree None (replaceVerbs None s)"
  by (rule replaceVerbs_verbFree) simp

subsection \<open>Trimming brings no match\<close>

lemma whitespace_not_word: "isWhiteSpace c \<Longrightarrow> \<not> isWordChar c"
  by (auto simp: isWhiteSpace_def isWordChar_def Let_def)

lemma verbFree_prev: "isWordCharAt p = isWordCharAt q \<Longrightarrow> verbFree p s = verbFree q s"
  by (cases s) (simp_all add: matchVerbAt_iff)

lemma verbFree_dropWhile:
  "verbFree p s \<Longrightarrow> \<not> isWordCharAt p \<Longrightarrow> verbFree p (dropWhile isWhiteSpace s)"
proof (induction s arbitrary: p)
  case Nil
  then show ?case by simp
next
  case (Cons c cs)
  show ?case
  proof (cases "isWhiteSpace c")
    case True
    then have c: "\<not> isWordCharAt (Some c)"
      by (simp add: isWordCharAt_def whitespace_not_word)
    with Cons have "verbFree (Some c) (dropWhile isWhiteSpace cs)"
      by simp
    with c Cons.prems(2) True show ?thesis
      using verbFree_prev [of p "Some c"] by simp
  next
    case False
    with Cons.prems show ?thesis by simp
  qed
qed

lemma matchLiteral_append: "matchLiteral w s \<Longrightarrow> matchLiteral w (s @ t)"
  by (induction w s rule: matchLiteral.induct) simp_all

lemma verbAhead_append:
  assumes "verbAhead s" and "\<not> isWordChar c"
  shows "verbAhead (s @ [c])"
proof -
  from assms(1) obtain w where w: "w \<in> set verbs" "matchLiteral w s"
    and after: "\<not> isWordCharAt (charAt s 6)"
    by (auto simp: verbAhead_def)
  from verb_match_word [OF w] have len: "6 \<le> length s"
    by simp
  from after assms(2) len have "\<not> isWordCharAt (charAt (s @ [c]) 6)"
    by (auto simp: charAt_def isWordCharAt_def nth_append)
  moreover from w(2) have "matchLiteral w (s @ [c])"
    by (rule matchLiteral_append)
  ultimately show ?thesis
    using w(1) unfolding verbAhead_def by blast
qed

lemma verbFree_snoc: "verbFree p (s @ [c]) \<Longrightarrow> \<not> isWordChar c \<Longrightarrow> verbFree p s"
proof (induction s arbitrary: p)
  case Nil
  then show ?case by simp
next
  case (Cons x xs)
  from Cons.prems have "matchVerbAt p (x # xs @ [c]) = None" and "verbFree (Some x) (xs @ [c])"
    by simp_all
  with Cons.IH Cons.prems(2) verbAhead_append [of "x # xs" c] show ?case
    by (auto simp: matchVerbAt_iff split: if_splits)
qed

lemma verbFree_strip_end:
  "verbFree p (s @ t) \<Longrightarrow> \<forall>c\<in>set t. isWhiteSpace c \<Longrightarrow> verbFree p s"
proof (induction t rule: rev_induct)
  case Nil
  then show ?case by simp
next
  case (snoc c t)
  from snoc.prems have "verbFree p ((s @ t) @ [c])" and "\<not> isWordChar c"
    by (simp_all add: whitespace_not_word)
  then have "verbFree p (s @ t)"
    by (rule verbFree_snoc)
  with snoc show ?case by simp
qed

lemma verbFree_trim: "verbFree None s \<Longrightarrow> verbFree None (trim s)"
proof -
  assume "verbFree None s"
  then have "verbFree None (dropWhile isWhiteSpace s)"
    by (rule verbFree_dropWhile) (simp add: isWordCharAt_def)
  then have "verbFree None
      (trim s @ rev (takeWhile isWhiteSpace (rev (dropWhile isWhiteSpace s))))"
    using trim_split [of s] by simp
  then show ?thesis
    by (rule verbFree_strip_end) (auto dest: set_takeWhileD)
qed

subsection \<open>The characters of the search title are those of the lower-cased utterance\<close>

lemma set_replaceVerbs: "set (replaceVerbs prev s) \<subseteq> set s"
proof (induction prev s rule: replaceVerbs.induct)
  case (1 prev s)
  show ?case
  proof (cases s)
    case Nil
    then show ?thesis by simp
  next
    case (Cons c cs)
    show ?thesis
    proof (cases "matchVerbAt prev s")
      case None
      with Cons "1.IH"(1) [OF Cons None] show ?thesis
        by (subst replaceVerbs.simps) auto
    next
      case (Some n)
      have "replaceVerbs prev s = replaceVerbs (charAt s (n - 1)) (drop n s)"
        using Some Cons by (subst replaceVerbs.simps) simp
      also have "set \<dots> \<subseteq> set (drop n s)"
        by (rule "1.IH"(2) [OF Cons Some])
      also have "\<dots> \<subseteq> set s"
        by (rule set_drop_subset)
      finally show ?thesis .
    qed
  qed
qed

lemma set_remove_dates:
  "set (foldl (\<lambda>searchTitle date. trim (replace searchTitle (pr_text date) [])) s ds) \<subseteq> set s"
proof (induction ds arbitrary: s)
  case Nil
  then show ?case by simp
next
  case (Cons d ds)
  have "set (trim (replace s (pr_text d) [])) \<subseteq> set s"
    using set_trim set_replace_empty by blast
  with Cons.IH [of "trim (replace s (pr_text d) [])"] show ?case
    by auto
qed

lemma set_extractSearchTitle: "set (extractSearchTitle u ds) \<subseteq> set (toLowerCase u)"
proof -
  have "set (extractSearchTitle u ds)
          \<subseteq> set (if length ds > 0
                  then foldl (\<lambda>searchTitle date. trim (replace searchTitle (pr_text date) []))
                         (toLowerCase u) ds
                  else toLowerCase u)"
    unfolding extractSearchTitle_def Let_def using set_trim set_replaceVerbs by blast
  also have "\<dots> \<subseteq> set (toLowerCase u)"
    by (simp add: set_remove_dates)
  finally show ?thesis .
qed

subsection \<open>The second application\<close>

lemma remove_dates_fixed:
  assumes "\<forall>d\<in>set ds. pr_text d = [] \<or> \<not> str_includes r (pr_text d)" and "trim r = r"
  shows "foldl (\<lambda>searchTitle date. trim (replace searchTitle (pr_text date) [])) r ds = r"
  using assms(1) by (induction ds) (simp_all add: replace_absent assms(2))

text \<open>
  Claim C7, amended. \<open>extractSearchTitle\<close> applied to its own result with the same
  expressions gives that result again whenever no expression's matched text is left in
  the result (every matched text is empty or does not occur in it), in particular for
  the empty sequence of expressions. A matched text that is left is removed by the
  second application.
\<close>

theorem extractSearchTitle_idempotent:
  assumes "\<forall>d\<in>set ds. pr_text d = [] \<or> \<not> str_includes (extractSearchTitle u ds) (pr_text d)"
  shows "extractSearchTitle (extractSearchTitle u ds) ds = extractSearchTitle u ds"
proof -
  define r where "r = extractSearchTitle u ds"
  obtain y where r: "r = trim (replaceVerbs None y)"
    by (simp add: r_def extractSearchTitle_def Let_def)
  have lower: "toLowerCase r = r"
    unfolding r_def using set_extractSearchTitle by (rule toLowerCase_subset)
  have trimmed: "trim r = r"
    by (simp add: r trim_trim)
  have dates: "foldl (\<lambda>searchTitle date. trim (replace searchTitle (pr_text date) [])) r ds = r"
    using assms trimmed unfolding r_def [symmetric] by (rule remove_dates_fixed)
  have "verbFree None r"
    unfolding r by (rule verbFree_trim) (rule replaceVerbs_None_verbFree)
  then have verbs: "replaceVerbs None r = r"
    by (rule verbFree_fixed)
  have "extractSearchTitle r ds = r"
    by (simp add: extractSearchTitle_def Let_def lower dates verbs trimmed)
  then show ?thesis
    by (simp add: r_def)
qed

text \<open>``cancel lunch tomorrow'' gives ``lunch'', and ``lunch'' gives ``lunch''.\<close>

theorem extractSearchTitle_idempotent_witness:
  "extractSearchTitle ''cancel lunch tomorrow''
      [\<lparr>pr_text = ''tomorrow'', pr_start = 1705392000000, pr_end = None\<rparr>] = ''lunch''
   \<and> extractSearchTitle ''lunch''
      [\<lparr>pr_text = ''tomorrow'', pr_start = 1705392000000, pr_end = None\<rparr>] = ''lunch''"
proof -
  let ?ds = "[\<lparr>pr_text = ''tomorrow'', pr_start = 1705392000000, pr_end = None\<rparr>]"
  have v: "extractSearchTitle ''cancel lunch tomorrow'' ?ds = ''lunch''"
    by code_simp
  have "\<forall>d\<in>set ?ds. pr_text d = []
          \<or> \<not> str_includes (extractSearchTitle ''cancel lunch tomorrow'' ?ds) (pr_text d)"
    by code_simp
  from extractSearchTitle_idempotent [OF this] v show ?thesis
    by simp
qed

text \<open>
  ``cancel know your customer now'' with the matched text ``now'': the first application
  removes the ``now'' inside ``know'', the second one the temporal expression.
\<close>

theorem extractSearchTitle_twice_counterexample:
  "extractSearchTitle ''cancel know your customer now''
      [\<lparr>pr_text = ''now'', pr_start = 1705312800000, pr_end = None\<rparr>] = ''k your customer now''
   \<and> extractSearchTitle ''k your customer now''
      [\<lparr>pr_text = ''now'', pr_start = 1705312800000, pr_end = None\<rparr>] = ''k your customer''"
  by code_simp

end
